theory Spec2Isabelle
  imports Main "HOL-Library.FSet"
begin

section \<open>Errors\<close>

text \<open>
  The exceptions that the address book module raises itself (\<open>ValidationError\<close>) or
  lets escape from the Python runtime it calls into.
\<close>

datatype error = ValidationError | KeyError | ValueError | OverflowError
  | AttributeError | TypeError

section \<open>Calendar dates (\<open>datetime.date\<close>)\<close>

text \<open>
  A \<open>datetime.date\<close> holds a year, a month and a day of the proleptic Gregorian
  calendar. Its constructor accepts years 1 to 9999 only and rejects days that the month
  does not have.
\<close>

record date =
  year :: int
  month :: int
  day :: int

definition mk_date :: "int \<Rightarrow> int \<Rightarrow> int \<Rightarrow> date" where
  "mk_date y m d = \<lparr>year = y, month = m, day = d\<rparr>"

definition MINYEAR :: int where "MINYEAR = 1"
definition MAXYEAR :: int where "MAXYEAR = 9999"

definition is_leap :: "int \<Rightarrow> bool" where
  "is_leap y = (y mod 4 = 0 \<and> (y mod 100 \<noteq> 0 \<or> y mod 400 = 0))"

definition days_in_month :: "int \<Rightarrow> int \<Rightarrow> int" where
  "days_in_month y m =
     (if m = 2 then (if is_leap y then 29 else 28)
      else if m = 4 \<or> m = 6 \<or> m = 9 \<or> m = 11 then 30 else 31)"

definition valid_date :: "date \<Rightarrow> bool" where
  "valid_date dt =
     (MINYEAR \<le> year dt \<and> year dt \<le> MAXYEAR \<and> 1 \<le> month dt \<and> month dt \<le> 12
      \<and> 1 \<le> day dt \<and> day dt \<le> days_in_month (year dt) (month dt))"

text \<open>\<open>date(y, m, d)\<close>: raises \<open>ValueError\<close> on a field out of range.\<close>

definition date_new :: "int \<Rightarrow> int \<Rightarrow> int \<Rightarrow> error + date" where
  "date_new y m d =
     (if valid_date (mk_date y m d) then Inr (mk_date y m d) else Inl ValueError)"

text \<open>
  \<open>dt.replace(year=..., month=..., day=...)\<close>: a keyword that is not given keeps the
  field of \<open>dt\<close>; the new date goes through the constructor's checks.
\<close>

definition date_replace :: "date \<Rightarrow> int option \<Rightarrow> int option \<Rightarrow> int option \<Rightarrow> error + date" where
  "date_replace dt y m d =
     date_new (case y of None \<Rightarrow> year dt | Some v \<Rightarrow> v)
              (case m of None \<Rightarrow> month dt | Some v \<Rightarrow> v)
              (case d of None \<Rightarrow> day dt | Some v \<Rightarrow> v)"

text \<open>\<open>a < b\<close> on dates compares (year, month, day) lexicographically.\<close>

definition date_lt :: "date \<Rightarrow> date \<Rightarrow> bool" where
  "date_lt a b =
     (year a < year b \<or> (year a = year b \<and>
        (month a < month b \<or> (month a = month b \<and> day a < day b))))"

text \<open>
  The proleptic Gregorian ordinal: 1 January of year 1 is day 1.
\<close>

definition days_before_year :: "int \<Rightarrow> int" where
  "days_before_year y =
     (y - 1) * 365 + (y - 1) div 4 - (y - 1) div 100 + (y - 1) div 400"

definition days_before_month :: "int \<Rightarrow> int \<Rightarrow> int" where
  "days_before_month y m =
     (if m = 1 then 0 else if m = 2 then 31 else if m = 3 then 59 else if m = 4 then 90
      else if m = 5 then 120 else if m = 6 then 151 else if m = 7 then 181
      else if m = 8 then 212 else if m = 9 then 243 else if m = 10 then 273
      else if m = 11 then 304 else 334)
     + (if m > 2 \<and> is_leap y then 1 else 0)"

definition toordinal :: "date \<Rightarrow> int" where
  "toordinal dt =
     days_before_year (year dt) + days_before_month (year dt) (month dt) + day dt"

text \<open>\<open>dt.weekday()\<close>: Monday is 0, Saturday 5, Sunday 6.\<close>

definition weekday :: "date \<Rightarrow> int" where
  "weekday dt = (toordinal dt + 6) mod 7"

text \<open>\<open>(a - b).days\<close>: the number of days from \<open>b\<close> to \<open>a\<close>.\<close>

definition days_between :: "date \<Rightarrow> date \<Rightarrow> int" where
  "days_between a b = toordinal a - toordinal b"

text \<open>
  \<open>dt + timedelta(days=n)\<close> for \<open>n \<ge> 0\<close>: the date \<open>n\<close> days later, and
  \<open>OverflowError\<close> when that date lies after 31 December 9999.
\<close>

definition next_day :: "date \<Rightarrow> date" where
  "next_day dt =
     (if day dt < days_in_month (year dt) (month dt)
        then mk_date (year dt) (month dt) (day dt + 1)
      else if month dt < 12 then mk_date (year dt) (month dt + 1) 1
      else mk_date (year dt + 1) 1 1)"

definition date_add_days :: "date \<Rightarrow> nat \<Rightarrow> error + date" where
  "date_add_days dt n =
     (let r = (next_day ^^ n) dt
      in if year r \<le> MAXYEAR then Inr r else Inl OverflowError)"

section \<open>Fields\<close>

text \<open>
  \<open>Field\<close> wraps one value; \<open>Name\<close>, \<open>Phone\<close> and \<open>Birthday\<close> are its three
  subclasses. A name and a phone wrap a string, a birthday wraps a date. The methods of
  \<open>Birthday\<close> test the wrapped value for \<open>None\<close>, so the birthday's slot is optional.
\<close>

datatype Name = Name (name_value: string)

datatype Phone = Phone (phone_value: string)

datatype Birthday = Birthday (birthday_value: "date option")

text \<open>
  A Python string is a sequence of code points. The model writes it as a \<open>string\<close>
  whose characters are the code points U+0000 to U+00FF, one \<open>char\<close> for each, so
  \<open>length\<close> is Python's \<open>len\<close>.

  \<open>str.isdigit\<close> is true of a non-empty string whose characters all have the Unicode
  property Numeric_Type Digit or Decimal. Below U+0100 these are the ten characters 0 to 9
  (U+0030 to U+0039) and the superscripts two, three and one (U+00B2, U+00B3, U+00B9).
\<close>

definition chr_isdigit :: "char \<Rightarrow> bool" where
  "chr_isdigit c =
     ((48 \<le> (of_char c :: nat) \<and> (of_char c :: nat) \<le> 57)
      \<or> (of_char c :: nat) = 178 \<or> (of_char c :: nat) = 179 \<or> (of_char c :: nat) = 185)"

definition isdigit :: "string \<Rightarrow> bool" where
  "isdigit s = (s \<noteq> [] \<and> list_all chr_isdigit s)"

text \<open>
  The claim about phone numbers speaks of decimal digits. Written after the claim's words,
  not after the source: a decimal digit is one of the ten characters 0 to 9.
\<close>

definition decimal_digit :: "char \<Rightarrow> bool" where
  "decimal_digit c = (48 \<le> (of_char c :: nat) \<and> (of_char c :: nat) \<le> 57)"

definition Name_init :: "string \<Rightarrow> error + Name" where
  "Name_init v = (if v = [] then Inl ValidationError else Inr (Name v))"

definition Phone_init :: "string \<Rightarrow> error + Phone" where
  "Phone_init v =
     (if \<not> isdigit v \<or> length v \<noteq> 10 then Inl ValidationError else Inr (Phone v))"

subsection \<open>Equality of fields\<close>

text \<open>
  \<open>Field.__eq__(self, other)\<close> is
  \<open>self.value == other.value and isinstance(other, type(self))\<close>: it reads the attribute
  \<open>value\<close> of the other operand first. The other operand is any Python object; the
  objects that matter here are the fields themselves, which have that attribute, and
  strings, dates, integers and \<open>None\<close>, which have not.
\<close>

datatype field = NameField Name | PhoneField Phone | BirthdayField Birthday

datatype field_class = NameClass | PhoneClass | BirthdayClass

datatype py_value = StrValue string | DateValue date | NoneValue

datatype py_object = FieldObject field | StrObject string | DateObject date
  | IntObject int | NoneObject

fun type_of :: "field \<Rightarrow> field_class" where
  "type_of (NameField n) = NameClass"
| "type_of (PhoneField p) = PhoneClass"
| "type_of (BirthdayField b) = BirthdayClass"

fun field_value :: "field \<Rightarrow> py_value" where
  "field_value (NameField n) = StrValue (name_value n)"
| "field_value (PhoneField p) = StrValue (phone_value p)"
| "field_value (BirthdayField b) =
     (case birthday_value b of None \<Rightarrow> NoneValue | Some d \<Rightarrow> DateValue d)"

fun getattr_value :: "py_object \<Rightarrow> error + py_value" where
  "getattr_value (FieldObject f) = Inr (field_value f)"
| "getattr_value (StrObject s) = Inl AttributeError"
| "getattr_value (DateObject d) = Inl AttributeError"
| "getattr_value (IntObject i) = Inl AttributeError"
| "getattr_value NoneObject = Inl AttributeError"

text \<open>The three field classes do not inherit from one another.\<close>

fun isinstance :: "py_object \<Rightarrow> field_class \<Rightarrow> bool" where
  "isinstance (FieldObject f) c = (type_of f = c)"
| "isinstance (StrObject s) c = False"
| "isinstance (DateObject d) c = False"
| "isinstance (IntObject i) c = False"
| "isinstance NoneObject c = False"

definition Field_eq :: "field \<Rightarrow> py_object \<Rightarrow> error + bool" where
  "Field_eq self other =
     (case getattr_value other of
        Inl e \<Rightarrow> Inl e
      | Inr other_value \<Rightarrow>
          Inr (field_value self = other_value \<and> isinstance other (type_of self)))"

section \<open>Birthday scheduling\<close>

definition is_leap_year :: "int \<Rightarrow> bool" where
  "is_leap_year y = (y mod 4 = 0 \<and> (y mod 100 \<noteq> 0 \<or> y mod 400 = 0))"

definition is_29th_february :: "Birthday \<Rightarrow> bool" where
  "is_29th_february self =
     (case birthday_value self of None \<Rightarrow> False
      | Some v \<Rightarrow> month v = 2 \<and> day v = 29)"

text \<open>
  \<open>next_congritulation_date\<close> reads the clock once; the date it reads is the parameter
  \<open>today\<close>. Its body has three steps, each an assignment to \<open>next_birthday\<close>; they
  are three definitions here, in the order of the source. A result \<open>Inr None\<close> is
  Python's \<open>None\<close>.
\<close>

text \<open>Step 1: the birthday in the year of \<open>today\<close>; \<open>v\<close> is \<open>self.value\<close>.\<close>

definition this_year_birthday :: "Birthday \<Rightarrow> date \<Rightarrow> date \<Rightarrow> error + date" where
  "this_year_birthday self v today =
     (if is_29th_february self \<and> \<not> is_leap_year (year today)
        then date_replace v (Some (year today)) None (Some 28)
      else date_replace v (Some (year today)) None None)"

text \<open>Step 2: a birthday that is in the past moves to the next year.\<close>

definition move_to_next_year :: "Birthday \<Rightarrow> date \<Rightarrow> date \<Rightarrow> date \<Rightarrow> error + date" where
  "move_to_next_year self v next_birthday today =
     (if date_lt next_birthday today
        then (if is_29th_february self \<and> is_leap_year (year today + 1)
                then date_replace v (Some (year today + 1)) None (Some 29)
              else date_replace next_birthday (Some (year today + 1)) None None)
      else Inr next_birthday)"

text \<open>Step 3: a Saturday moves two days on, a Sunday one.\<close>

definition weekend_shift :: "date \<Rightarrow> error + date" where
  "weekend_shift next_birthday =
     (if weekday next_birthday = 5 then date_add_days next_birthday 2
      else if weekday next_birthday = 6 then date_add_days next_birthday 1
      else Inr next_birthday)"

definition next_congritulation_date :: "Birthday \<Rightarrow> date \<Rightarrow> error + date option" where
  "next_congritulation_date self today =
     (case birthday_value self of None \<Rightarrow> Inr None
      | Some v \<Rightarrow>
        (case this_year_birthday self v today of
           Inl e \<Rightarrow> Inl e
         | Inr this_year \<Rightarrow>
           (case move_to_next_year self v this_year today of
              Inl e \<Rightarrow> Inl e
            | Inr next_birthday \<Rightarrow>
              (case weekend_shift next_birthday of
                 Inl e \<Rightarrow> Inl e
               | Inr shifted \<Rightarrow> Inr (Some shifted)))))"

section \<open>Parsing and printing a birthday\<close>

text \<open>
  \<open>Birthday(value)\<close> parses with \<open>datetime.strptime(value, "%d.%m.%Y")\<close>. The library
  turns the format into the regular expression
  \<^verbatim>\<open>(?P<d>3[0-1]|[1-2]\d|0[1-9]|[1-9]| [1-9])\.(?P<m>1[0-2]|0[1-9]|[1-9])\.(?P<Y>\d\d\d\d)\<close>,
  matches it at the start of the string, raises \<open>ValueError\<close> when there is no match or
  when the match does not reach the end of the string, and builds the date from the three
  numbers.

  Each directive is a list of alternatives tried from left to right, with backtracking.
  The model keeps that: a directive returns all its matches at the start of a string, in
  the order of the alternatives, each with the rest of the string, and the match of the
  whole expression is the first combination that goes through.
\<close>

definition dec_char :: "char \<Rightarrow> bool" where
  "dec_char c = (48 \<le> (of_char c :: int) \<and> (of_char c :: int) \<le> 57)"

definition nonzero_char :: "char \<Rightarrow> bool" where
  "nonzero_char c = (49 \<le> (of_char c :: int) \<and> (of_char c :: int) \<le> 57)"

text \<open>The number that \<open>int\<close> reads from one of the characters 0 to 9.\<close>

definition digit_value :: "char \<Rightarrow> int" where
  "digit_value c = of_char c - 48"

text \<open>\<open>%d\<close>: \<open>3[0-1]|[1-2]\d|0[1-9]|[1-9]| [1-9]\<close>.\<close>

definition day_directive :: "string \<Rightarrow> (int \<times> string) list" where
  "day_directive s =
     (case s of
        a # b # r \<Rightarrow>
          (if a = CHR ''3'' \<and> (b = CHR ''0'' \<or> b = CHR ''1'') then [(30 + digit_value b, r)] else [])
          @ (if (a = CHR ''1'' \<or> a = CHR ''2'') \<and> dec_char b
               then [(10 * digit_value a + digit_value b, r)] else [])
          @ (if a = CHR ''0'' \<and> nonzero_char b then [(digit_value b, r)] else [])
      | _ \<Rightarrow> [])
     @ (case s of a # r \<Rightarrow> (if nonzero_char a then [(digit_value a, r)] else []) | [] \<Rightarrow> [])
     @ (case s of
          a # b # r \<Rightarrow> (if a = CHR 0x20 \<and> nonzero_char b then [(digit_value b, r)] else [])
        | _ \<Rightarrow> [])"

text \<open>\<open>%m\<close>: \<open>1[0-2]|0[1-9]|[1-9]\<close>.\<close>

definition month_directive :: "string \<Rightarrow> (int \<times> string) list" where
  "month_directive s =
     (case s of
        a # b # r \<Rightarrow>
          (if a = CHR ''1'' \<and> (b = CHR ''0'' \<or> b = CHR ''1'' \<or> b = CHR ''2'')
             then [(10 + digit_value b, r)] else [])
          @ (if a = CHR ''0'' \<and> nonzero_char b then [(digit_value b, r)] else [])
      | _ \<Rightarrow> [])
     @ (case s of a # r \<Rightarrow> (if nonzero_char a then [(digit_value a, r)] else []) | [] \<Rightarrow> [])"

text \<open>\<open>%Y\<close>: \<open>\d\d\d\d\<close>.\<close>

definition year_directive :: "string \<Rightarrow> (int \<times> string) list" where
  "year_directive s =
     (case s of
        a # b # c # d # r \<Rightarrow>
          (if dec_char a \<and> dec_char b \<and> dec_char c \<and> dec_char d
             then [(1000 * digit_value a + 100 * digit_value b + 10 * digit_value c
                     + digit_value d, r)]
           else [])
      | _ \<Rightarrow> [])"

text \<open>The literal \<open>\.\<close> after a directive: the matches that go on with a full stop.\<close>

definition then_dot :: "(int \<times> string) list \<Rightarrow> (int \<times> string) list" where
  "then_dot ms =
     concat (map (\<lambda>(v, r). case r of c # r' \<Rightarrow> (if c = CHR ''.'' then [(v, r')] else [])
                              | [] \<Rightarrow> []) ms)"

text \<open>All matches of the whole expression: day, month, year and the unmatched rest.\<close>

definition format_matches :: "string \<Rightarrow> (int \<times> int \<times> int \<times> string) list" where
  "format_matches s =
     concat (map (\<lambda>(d, r1).
       concat (map (\<lambda>(m, r2).
         map (\<lambda>(y, r3). (d, m, y, r3)) (year_directive r2))
       (then_dot (month_directive r1))))
     (then_dot (day_directive s)))"

definition strptime :: "string \<Rightarrow> error + date" where
  "strptime s =
     (case format_matches s of
        [] \<Rightarrow> Inl ValueError
      | (d, m, y, rest) # _ \<Rightarrow> (if rest \<noteq> [] then Inl ValueError else date_new y m d))"

text \<open>\<open>Birthday.__init__\<close> turns the parser's \<open>ValueError\<close> into \<open>ValidationError\<close>.\<close>

definition Birthday_init :: "string \<Rightarrow> error + Birthday" where
  "Birthday_init v =
     (case strptime v of
        Inl e \<Rightarrow> (if e = ValueError then Inl ValidationError else Inl e)
      | Inr birthday \<Rightarrow> Inr (Birthday (Some birthday)))"






section \<open>Contact records\<close>

text \<open>
  A record has a name, an optional birthday and a set of phones. The set compares its
  members with \<open>Field.__eq__\<close> and \<open>Field.__hash__\<close>, which on two phones is equality
  of the wrapped strings.

  A method that changes the record returns the outcome together with the record as the
  call leaves it, so that what an exception leaves behind can be read off.
\<close>

record Record =
  name :: Name
  birthday :: "Birthday option"
  phones :: "Phone fset"

definition Record_init :: "string \<Rightarrow> error + Record" where
  "Record_init n =
     (case Name_init n of
        Inl e \<Rightarrow> Inl e
      | Inr nm \<Rightarrow> Inr \<lparr>name = nm, birthday = None, phones = {||}\<rparr>)"

text \<open>\<open>set.remove(x)\<close>: raises \<open>KeyError\<close> when \<open>x\<close> is not a member.\<close>

definition set_remove :: "'a fset \<Rightarrow> 'a \<Rightarrow> error + 'a fset" where
  "set_remove s x = (if x |\<in>| s then Inr (s |-| {|x|}) else Inl KeyError)"

definition add_phone :: "Record \<Rightarrow> string \<Rightarrow> (error + unit) \<times> Record" where
  "add_phone self phone =
     (case Phone_init phone of
        Inl e \<Rightarrow> (Inl e, self)
      | Inr phone_obj \<Rightarrow> (Inr (), self\<lparr>phones := finsert phone_obj (phones self)\<rparr>))"

definition remove_phone :: "Record \<Rightarrow> string \<Rightarrow> (error + unit) \<times> Record" where
  "remove_phone self phone =
     (case Phone_init phone of
        Inl e \<Rightarrow> (Inl e, self)
      | Inr phone_obj \<Rightarrow>
          (case set_remove (phones self) phone_obj of
             Inl e \<Rightarrow> (Inl e, self)
           | Inr ps \<Rightarrow> (Inr (), self\<lparr>phones := ps\<rparr>)))"

definition edit_phone :: "Record \<Rightarrow> string \<Rightarrow> string \<Rightarrow> (error + unit) \<times> Record" where
  "edit_phone self old_phone new_phone =
     (case Phone_init old_phone of
        Inl e \<Rightarrow> (Inl e, self)
      | Inr old_phone_obj \<Rightarrow>
          if old_phone_obj |\<notin>| phones self then (Inl ValidationError, self)
          else
            (case Phone_init new_phone of
               Inl e \<Rightarrow> (Inl e, self)
             | Inr new_phone_obj \<Rightarrow>
                 (let added = self\<lparr>phones := finsert new_phone_obj (phones self)\<rparr>
                  in case set_remove (phones added) old_phone_obj of
                       Inl e \<Rightarrow> (Inl e, added)
                     | Inr ps \<Rightarrow> (Inr (), added\<lparr>phones := ps\<rparr>))))"

section \<open>The address book\<close>

text \<open>
  \<open>AddressBook\<close> is a dictionary from names to records; a Python dictionary keeps its
  entries in the order of insertion, which is the order of the list.
\<close>

type_synonym AddressBook = "(string \<times> Record) list"

text \<open>
  The loop of \<open>get_upcoming_birthdays\<close> over \<open>self.data.values()\<close>; the last argument
  is the list \<open>upcoming_birthdays\<close> built so far. A birthday object is always true in
  \<open>if not record.birthday\<close>, so only a record without a birthday is skipped. An
  exception of \<open>next_congritulation_date\<close> ends the loop, and a result \<open>None\<close> cannot
  be subtracted from.

  Every entry \<open>{"name": ..., "congratulation_day": ...}\<close> of the result is a pair. The
  method and \<open>next_congritulation_date\<close> each read the clock; all the readings of one
  call are taken to give the same date \<open>today\<close>.
\<close>

fun upcoming_loop :: "Record list \<Rightarrow> int \<Rightarrow> date \<Rightarrow> (Name \<times> date) list
    \<Rightarrow> error + (Name \<times> date) list" where
  "upcoming_loop [] days_ahead today upcoming_birthdays = Inr upcoming_birthdays"
| "upcoming_loop (record # records) days_ahead today upcoming_birthdays =
     (case birthday record of
        None \<Rightarrow> upcoming_loop records days_ahead today upcoming_birthdays
      | Some b \<Rightarrow>
          (case next_congritulation_date b today of
             Inl e \<Rightarrow> Inl e
           | Inr None \<Rightarrow> Inl TypeError
           | Inr (Some congratulation_day) \<Rightarrow>
               if 0 \<le> days_between congratulation_day today
                  \<and> days_between congratulation_day today < days_ahead
               then upcoming_loop records days_ahead today
                      (upcoming_birthdays @ [(name record, congratulation_day)])
               else upcoming_loop records days_ahead today upcoming_birthdays))"

definition get_upcoming_birthdays :: "AddressBook \<Rightarrow> int \<Rightarrow> date \<Rightarrow> error + (Name \<times> date) list" where
  "get_upcoming_birthdays self days_ahead today = upcoming_loop (map snd self) days_ahead today []"

text \<open>
  Written after the claim's words, not after the source: the records with a birthday
  whose celebration date \<open>d\<close> satisfies \<open>0 \<le> (d - today).days < days_ahead\<close>, in the
  order of the directory.
\<close>

definition celebration :: "Record \<Rightarrow> date \<Rightarrow> date option" where
  "celebration record today =
     (case birthday record of
        None \<Rightarrow> None
      | Some b \<Rightarrow> (case next_congritulation_date b today of Inr (Some d) \<Rightarrow> Some d | _ \<Rightarrow> None))"

definition within_days :: "Record list \<Rightarrow> int \<Rightarrow> date \<Rightarrow> (Name \<times> date) list" where
  "within_days records days_ahead today =
     List.map_filter (\<lambda>record.
        case celebration record today of
          None \<Rightarrow> None
        | Some d \<Rightarrow> (if 0 \<le> days_between d today \<and> days_between d today < days_ahead
                     then Some (name record, d) else None)) records"

section \<open>Properties of the calendar model\<close>

text \<open>
  The day after a date has the next ordinal, so adding days to a date and subtracting
  dates agree with arithmetic on ordinals.
\<close>
lemma div_step: 
  assumes "0 < k"
  shows "(y::int) div k = (y - 1) div k + (if y mod k = 0 then 1 else 0)"
proof (cases "y mod k = 0")
  case True
  then have "y = k * (y div k)" by auto
  then have "y - 1 = k * (y div k - 1) + (k - 1)"
    by (simp add: algebra_simps)
  have s1: "y - 1 = k * (y div k - 1) + (k - 1)"
    by fact
  have "(y - 1) div k = y div k - 1"
    by (rule int_div_pos_eq [where r = "k - 1"]) (use assms s1 in simp_all)
  with True show ?thesis by simp
next
  case False
  have "0 \<le> y mod k" "y mod k < k" using assms by simp_all
  have "y - 1 = k * (y div k) + (y mod k - 1)"
    by (simp add: algebra_simps)
  have s2: "y - 1 = k * (y div k) + (y mod k - 1)"
    by fact
  have "(y - 1) div k = y div k"
    by (rule int_div_pos_eq [where r = "y mod k - 1"])
      (use assms False s2 \<open>0 \<le> y mod k\<close> \<open>y mod k < k\<close> in simp_all)
  with False show ?thesis by simp
qed

lemma dby_step: "days_before_year (y + 1) = days_before_year y + (if is_leap y then 366 else 365)"
proof -
  have a: "y div 4 = (y - 1) div 4 + (if y mod 4 = 0 then 1 else 0)" by (rule div_step) simp
  have b: "y div 100 = (y - 1) div 100 + (if y mod 100 = 0 then 1 else 0)" by (rule div_step) simp
  have c: "y div 400 = (y - 1) div 400 + (if y mod 400 = 0 then 1 else 0)" by (rule div_step) simp
  have d: "y mod 400 = 0 \<Longrightarrow> y mod 100 = 0" by presburger
  have e: "y mod 100 = 0 \<Longrightarrow> y mod 4 = 0" by presburger
  have "days_before_year (y + 1) = y * 365 + y div 4 - y div 100 + y div 400"
    by (simp add: days_before_year_def)
  also have "\<dots> = days_before_year y + 365 + (if y mod 4 = 0 then 1 else 0)
        - (if y mod 100 = 0 then 1 else 0) + (if y mod 400 = 0 then 1 else 0)"
    unfolding days_before_year_def
    by (simp only: a b c) (simp add: algebra_simps)
  also have "\<dots> = days_before_year y + (if is_leap y then 366 else 365)"
    using d e by (cases "y mod 4 = 0"; cases "y mod 100 = 0"; cases "y mod 400 = 0") (simp_all add: is_leap_def)
  finally show ?thesis .
qed


lemma month_cases:
  "1 \<le> m \<Longrightarrow> m \<le> 12 \<Longrightarrow>
   m = 1 \<or> m = 2 \<or> m = 3 \<or> m = 4 \<or> m = 5 \<or> m = 6 \<or> m = 7 \<or> m = 8 \<or> m = 9
     \<or> m = 10 \<or> m = 11 \<or> m = (12::int)"
  by arith

lemma dbm_step:
  assumes "1 \<le> m" "m < 12"
  shows "days_before_month y (m + 1) = days_before_month y m + days_in_month y m"
proof -
  from assms have "m = 1 \<or> m = 2 \<or> m = 3 \<or> m = 4 \<or> m = 5 \<or> m = 6 \<or> m = 7 \<or> m = 8
      \<or> m = 9 \<or> m = 10 \<or> m = 11"
    by arith
  then show ?thesis
    by (elim disjE) (simp_all add: days_before_month_def days_in_month_def)
qed

lemma dbm_december: "days_before_month y 12 + 31 = (if is_leap y then 366 else 365)"
  by (simp add: days_before_month_def)

lemma toordinal_next_day:
  assumes "valid_date dt"
  shows "toordinal (next_day dt) = toordinal dt + 1"
proof -
  from assms have m: "1 \<le> month dt" "month dt \<le> 12"
    and d: "day dt \<le> days_in_month (year dt) (month dt)"
    by (simp_all add: valid_date_def)
  consider (a) "day dt < days_in_month (year dt) (month dt)"
    | (b) "day dt = days_in_month (year dt) (month dt)" "month dt < 12"
    | (c) "day dt = days_in_month (year dt) (month dt)" "month dt = 12"
    using m d by linarith
  then show ?thesis
  proof cases
    case a
    then show ?thesis by (simp add: next_day_def toordinal_def mk_date_def)
  next
    case b
    then show ?thesis
      using dbm_step [of "month dt" "year dt"] m
      by (simp add: next_day_def toordinal_def mk_date_def)
  next
    case c
    then have "day dt = 31" by (simp add: days_in_month_def)
    with c show ?thesis
      using dbm_december [of "year dt"] dby_step [of "year dt"]
      by (simp add: next_day_def toordinal_def mk_date_def days_in_month_def days_before_month_def)
  qed
qed

lemma valid_next_day:
  assumes "valid_date dt"
  shows "year (next_day dt) \<le> MAXYEAR \<Longrightarrow> valid_date (next_day dt)"
  using assms
  by (auto simp: valid_date_def next_day_def mk_date_def days_in_month_def MINYEAR_def)

lemma date_new_valid: "date_new y m d = Inr dt \<Longrightarrow> valid_date dt"
  by (auto simp: date_new_def split: if_splits)

lemma date_replace_valid: "date_replace dt y m d = Inr r \<Longrightarrow> valid_date r"
  unfolding date_replace_def by (rule date_new_valid)

lemma year_next_day: "year dt \<le> year (next_day dt)"
  by (simp add: next_day_def mk_date_def)

lemma date_add_days_1:
  assumes "valid_date dt" "date_add_days dt 1 = Inr r"
  shows "valid_date r \<and> toordinal r = toordinal dt + 1"
proof -
  from assms(2) have r: "r = next_day dt" and y: "year (next_day dt) \<le> MAXYEAR"
    by (auto simp: date_add_days_def Let_def split: if_splits)
  show ?thesis
    using assms(1) y by (simp add: r valid_next_day toordinal_next_day)
qed

lemma date_add_days_2:
  assumes "valid_date dt" "date_add_days dt 2 = Inr r"
  shows "valid_date r \<and> toordinal r = toordinal dt + 2"
proof -
  from assms(2) have r: "r = next_day (next_day dt)"
    and y: "year (next_day (next_day dt)) \<le> MAXYEAR"
    by (auto simp: date_add_days_def Let_def numeral_2_eq_2 split: if_splits)
  have "year (next_day dt) \<le> MAXYEAR"
    using year_next_day [of "next_day dt"] y by linarith
  then have v1: "valid_date (next_day dt)"
    using assms(1) by (rule valid_next_day [rotated])
  then have "valid_date r" unfolding r using y by (rule valid_next_day)
  moreover have "toordinal r = toordinal dt + 2"
    by (simp add: r toordinal_next_day v1 assms(1))
  ultimately show ?thesis by simp
qed

lemma weekday_range: "0 \<le> weekday dt \<and> weekday dt < 7"
  by (simp add: weekday_def)

lemma weekend_shift_weekday:
  assumes "valid_date nb" "weekend_shift nb = Inr r"
  shows "valid_date r \<and> weekday r \<noteq> 5 \<and> weekday r \<noteq> 6"
proof -
  consider (sat) "weekday nb = 5" | (sun) "weekday nb \<noteq> 5" "weekday nb = 6"
    | (wd) "weekday nb \<noteq> 5" "weekday nb \<noteq> 6"
    by blast
  then show ?thesis
  proof cases
    case sat
    with assms(2) have "date_add_days nb 2 = Inr r" by (simp add: weekend_shift_def)
    from date_add_days_2 [OF assms(1) this] sat show ?thesis
      unfolding weekday_def by presburger
  next
    case sun
    with assms(2) have "date_add_days nb 1 = Inr r" by (simp add: weekend_shift_def)
    from date_add_days_1 [OF assms(1) this] sun show ?thesis
      unfolding weekday_def by presburger
  next
    case wd
    with assms show ?thesis by (simp add: weekend_shift_def)
  qed
qed

text \<open>The definitions that evaluate the calendar and the scheduling on concrete dates.\<close>

lemmas calendar_defs = date_new_def date_replace_def valid_date_def mk_date_def
  days_in_month_def is_leap_def MINYEAR_def MAXYEAR_def date_lt_def toordinal_def
  days_before_year_def days_before_month_def weekday_def next_day_def date_add_days_def
  days_between_def

lemmas schedule_defs = next_congritulation_date_def this_year_birthday_def
  move_to_next_year_def weekend_shift_def is_29th_february_def is_leap_year_def

section \<open>The celebration date is a weekday\<close>

text \<open>
  Claim C5. For every birthday \<open>b\<close> and every date \<open>today\<close> for which
  \<open>next_congritulation_date\<close> returns a date, that date is neither a Saturday
  (weekday 5) nor a Sunday (weekday 6). The dates that steps 1 and 2 produce come out of
  \<open>replace\<close> and are therefore valid dates, whatever \<open>b\<close> holds; a Saturday plus two
  days and a Sunday plus one day are Mondays.
\<close>

theorem next_congritulation_date_weekday:
  "next_congritulation_date b today = Inr (Some d) \<Longrightarrow> weekday d \<noteq> 5 \<and> weekday d \<noteq> 6"
proof -
  assume a: "next_congritulation_date b today = Inr (Some d)"
  then obtain nb where v: "valid_date nb" and w: "weekend_shift nb = Inr d"
    unfolding next_congritulation_date_def this_year_birthday_def move_to_next_year_def
    by (auto split: option.splits sum.splits if_splits dest: date_replace_valid)
  from weekend_shift_weekday [OF v w] show ?thesis by simp
qed

text \<open>
  The birthday 15.03.1990 seen on 20 March 2024: 15 March 2025 is a Saturday, the
  celebration is on Monday 17 March 2025.
\<close>

theorem next_congritulation_date_weekday_witness:
  "next_congritulation_date (Birthday (Some (mk_date 1990 3 15))) (mk_date 2024 3 20)
     = Inr (Some (mk_date 2025 3 17))
   \<and> weekday (mk_date 2025 3 17) \<noteq> 5 \<and> weekday (mk_date 2025 3 17) \<noteq> 6"
proof -
  have h: "next_congritulation_date (Birthday (Some (mk_date 1990 3 15))) (mk_date 2024 3 20)
     = Inr (Some (mk_date 2025 3 17))"
    by (simp add: schedule_defs calendar_defs numeral_2_eq_2)
  from next_congritulation_date_weekday [OF h] h show ?thesis by simp
qed

section \<open>A 29 February birthday that has passed\<close>

text \<open>
  Claim C1, as stated: for a 29 February birthday whose date in the year of \<open>today\<close>
  (the result of step 1) is before \<open>today\<close>, and with no leap year following, the function
  returns 28 February of the next year. It does not on 1 March 2025: 28 February 2026 is
  a Saturday, and step 3 moves the celebration to Monday 2 March 2026.
\<close>

theorem rollover_feb_28_counterexample:
  "is_29th_february (Birthday (Some (mk_date 2000 2 29)))
   \<and> this_year_birthday (Birthday (Some (mk_date 2000 2 29))) (mk_date 2000 2 29) (mk_date 2025 3 1)
       = Inr (mk_date 2025 2 28)
   \<and> date_lt (mk_date 2025 2 28) (mk_date 2025 3 1)
   \<and> \<not> is_leap_year (year (mk_date 2025 3 1) + 1)
   \<and> next_congritulation_date (Birthday (Some (mk_date 2000 2 29))) (mk_date 2025 3 1)
       = Inr (Some (mk_date 2026 3 2))
   \<and> next_congritulation_date (Birthday (Some (mk_date 2000 2 29))) (mk_date 2025 3 1)
       \<noteq> Inr (Some (mk_date (year (mk_date 2025 3 1) + 1) 2 28))"
  by (simp add: schedule_defs calendar_defs numeral_2_eq_2)

text \<open>
  When the year of \<open>today\<close> is itself a leap year, step 1 gives 29 February of that year,
  and step 2 asks \<open>replace\<close> for 29 February of the following year, which no calendar
  has: on 1 March 2024 the function raises \<open>ValueError\<close>.
\<close>

lemma rollover_from_leap_year_raises:
  "this_year_birthday (Birthday (Some (mk_date 2000 2 29))) (mk_date 2000 2 29) (mk_date 2024 3 1)
       = Inr (mk_date 2024 2 29)
   \<and> date_lt (mk_date 2024 2 29) (mk_date 2024 3 1)
   \<and> \<not> is_leap_year (year (mk_date 2024 3 1) + 1)
   \<and> next_congritulation_date (Birthday (Some (mk_date 2000 2 29))) (mk_date 2024 3 1)
       = Inl ValueError"
  by (simp add: schedule_defs calendar_defs numeral_2_eq_2)

text \<open>Step 3 on 28 February of a year that is not a leap year.\<close>

lemma weekend_shift_feb_28:
  assumes "\<not> is_leap y" "1 \<le> y" "y \<le> 9999"
  shows "weekend_shift (mk_date y 2 28) =
     Inr (if weekday (mk_date y 2 28) = 5 then mk_date y 3 2
        else if weekday (mk_date y 2 28) = 6 then mk_date y 3 1
        else mk_date y 2 28)"
proof -
  have n1: "next_day (mk_date y 2 28) = mk_date y 3 1"
    using assms by (simp add: next_day_def mk_date_def days_in_month_def)
  have n2: "next_day (mk_date y 3 1) = mk_date y 3 2"
    by (simp add: next_day_def mk_date_def days_in_month_def)
  have y1: "year (mk_date y 3 1) \<le> MAXYEAR" "year (mk_date y 3 2) \<le> MAXYEAR"
    using assms by (simp_all add: mk_date_def MAXYEAR_def)
  have a1: "date_add_days (mk_date y 2 28) (Suc 0) = Inr (mk_date y 3 1)"
    using y1 by (simp add: date_add_days_def n1)
  have a2: "date_add_days (mk_date y 2 28) 2 = Inr (mk_date y 3 2)"
    using y1 by (simp add: date_add_days_def numeral_2_eq_2 n1 n2)
  show ?thesis
    by (simp add: weekend_shift_def a1 a2)
qed

text \<open>
  Claim C1, amended. For a 29 February birthday and a date \<open>today\<close> in a year that is
  not a leap year, if the result of step 1 is before \<open>today\<close> and the next year is not a
  leap year either, the function returns 28 February of the next year after the weekend
  shift: 28 February itself on a weekday, 2 March when it is a Saturday, 1 March when it
  is a Sunday.
\<close>

theorem rollover_feb_28_shifted:
  assumes feb29: "birthday_value b = Some v" "month v = 2" "day v = 29"
    and today: "valid_date today" "\<not> is_leap_year (year today)"
    and past: "this_year_birthday b v today = Inr c" "date_lt c today"
    and nonleap: "\<not> is_leap_year (year today + 1)"
  shows "next_congritulation_date b today =
     Inr (Some (if weekday (mk_date (year today + 1) 2 28) = 5 then mk_date (year today + 1) 3 2
        else if weekday (mk_date (year today + 1) 2 28) = 6 then mk_date (year today + 1) 3 1
        else mk_date (year today + 1) 2 28))"
proof -
  have f: "is_29th_february b"
    using feb29 by (simp add: is_29th_february_def)
  have y: "1 \<le> year today" "year today \<le> 9999"
    using today(1) by (simp_all add: valid_date_def MINYEAR_def MAXYEAR_def)
  have "year today \<noteq> 9999"
    using nonleap by (auto simp: is_leap_year_def)
  with y have y': "1 \<le> year today + 1" "year today + 1 \<le> 9999" by simp_all
  have nl: "\<not> is_leap (year today)" "\<not> is_leap (year today + 1)"
    using today(2) nonleap by (simp_all add: is_leap_year_def is_leap_def)
  have c: "c = mk_date (year today) 2 28"
    using past(1) f today(2) feb29(2) y nl(1)
    by (auto simp: this_year_birthday_def date_replace_def date_new_def valid_date_def
        mk_date_def days_in_month_def MINYEAR_def MAXYEAR_def split: if_splits)
  have m: "move_to_next_year b v c today = Inr (mk_date (year today + 1) 2 28)"
    using past(2) f nonleap y' nl(2)
    by (simp add: move_to_next_year_def c date_replace_def date_new_def valid_date_def
        mk_date_def days_in_month_def MINYEAR_def MAXYEAR_def)
  show ?thesis
    using feb29(1) past(1) m weekend_shift_feb_28 [OF nl(2) y']
    by (simp add: next_congritulation_date_def)
qed

text \<open>
  On 1 March 2025 the result is Monday 2 March 2026; on 31 December 2022 it is Tuesday
  28 February 2023.
\<close>

theorem rollover_feb_28_shifted_witness:
  "next_congritulation_date (Birthday (Some (mk_date 2000 2 29))) (mk_date 2025 3 1)
     = Inr (Some (mk_date 2026 3 2))
   \<and> next_congritulation_date (Birthday (Some (mk_date 2004 2 29))) (mk_date 2022 12 31)
     = Inr (Some (mk_date 2023 2 28))"
proof -
  have t1: "valid_date (mk_date 2025 3 1)" "\<not> is_leap_year (year (mk_date 2025 3 1))"
    by (simp_all add: schedule_defs calendar_defs)
  have p1: "this_year_birthday (Birthday (Some (mk_date 2000 2 29))) (mk_date 2000 2 29)
      (mk_date 2025 3 1) = Inr (mk_date 2025 2 28)"
    "date_lt (mk_date 2025 2 28) (mk_date 2025 3 1)"
    by (simp_all add: schedule_defs calendar_defs)
  have n1: "\<not> is_leap_year (year (mk_date 2025 3 1) + 1)"
    by (simp add: schedule_defs calendar_defs)
  have t2: "valid_date (mk_date 2022 12 31)" "\<not> is_leap_year (year (mk_date 2022 12 31))"
    by (simp_all add: schedule_defs calendar_defs)
  have p2: "this_year_birthday (Birthday (Some (mk_date 2004 2 29))) (mk_date 2004 2 29)
      (mk_date 2022 12 31) = Inr (mk_date 2022 2 28)"
    "date_lt (mk_date 2022 2 28) (mk_date 2022 12 31)"
    by (simp_all add: schedule_defs calendar_defs)
  have n2: "\<not> is_leap_year (year (mk_date 2022 12 31) + 1)"
    by (simp add: schedule_defs calendar_defs)
  have r1: "next_congritulation_date (Birthday (Some (mk_date 2000 2 29))) (mk_date 2025 3 1)
     = Inr (Some (mk_date 2026 3 2))"
    using rollover_feb_28_shifted [OF _ _ _ t1 p1 n1]
    by (simp add: calendar_defs)
  have r2: "next_congritulation_date (Birthday (Some (mk_date 2004 2 29))) (mk_date 2022 12 31)
     = Inr (Some (mk_date 2023 2 28))"
    using rollover_feb_28_shifted [OF _ _ _ t2 p2 n2]
    by (simp add: calendar_defs)
  from r1 r2 show ?thesis by simp
qed

section \<open>Phone numbers\<close>

lemmas phone_defs = Phone_init_def isdigit_def chr_isdigit_def decimal_digit_def

text \<open>
  Claim C3, as stated: \<open>Phone(s)\<close> succeeds if and only if \<open>s\<close> has length 10 and all
  its characters are decimal digits. The test in the source is \<open>str.isdigit\<close>, which also
  accepts digits that are not decimal: the string of ten superscript twos (U+00B2) has
  length 10, has no decimal digit in it, and is accepted.
\<close>

theorem Phone_init_superscript_counterexample:
  "length [CHR 0xB2, CHR 0xB2, CHR 0xB2, CHR 0xB2, CHR 0xB2,
           CHR 0xB2, CHR 0xB2, CHR 0xB2, CHR 0xB2, CHR 0xB2] = 10
   \<and> \<not> list_all decimal_digit [CHR 0xB2, CHR 0xB2, CHR 0xB2, CHR 0xB2, CHR 0xB2,
           CHR 0xB2, CHR 0xB2, CHR 0xB2, CHR 0xB2, CHR 0xB2]
   \<and> Phone_init [CHR 0xB2, CHR 0xB2, CHR 0xB2, CHR 0xB2, CHR 0xB2,
           CHR 0xB2, CHR 0xB2, CHR 0xB2, CHR 0xB2, CHR 0xB2]
       = Inr (Phone [CHR 0xB2, CHR 0xB2, CHR 0xB2, CHR 0xB2, CHR 0xB2,
           CHR 0xB2, CHR 0xB2, CHR 0xB2, CHR 0xB2, CHR 0xB2])"
  by (simp add: phone_defs)

text \<open>A field is equal to itself, and a string of ten decimal digits is accepted.\<close>

lemma Field_eq_same: "Field_eq f (FieldObject f) = Inr True"
  by (simp add: Field_eq_def)

lemma decimal_digit_isdigit: "decimal_digit c \<Longrightarrow> chr_isdigit c"
  by (simp add: decimal_digit_def chr_isdigit_def)

lemma Phone_init_decimal:
  "length s = 10 \<Longrightarrow> list_all decimal_digit s \<Longrightarrow> Phone_init s = Inr (Phone s)"
  by (auto simp: Phone_init_def isdigit_def list_all_iff dest: decimal_digit_isdigit)

text \<open>
  Claim C3, amended. \<open>Phone(s)\<close> succeeds if and only if \<open>s\<close> has length 10 and every
  character of \<open>s\<close> is a digit in the sense of \<open>str.isdigit\<close> (a decimal digit or another
  Unicode digit such as a superscript); otherwise it raises \<open>ValidationError\<close>; and when
  it succeeds, two phones built from \<open>s\<close> compare equal.
\<close>

theorem Phone_init_iff:
  "(length s = 10 \<and> list_all chr_isdigit s \<longrightarrow>
      Phone_init s = Inr (Phone s)
      \<and> Field_eq (PhoneField (Phone s)) (FieldObject (PhoneField (Phone s))) = Inr True)
   \<and> (\<not> (length s = 10 \<and> list_all chr_isdigit s) \<longrightarrow> Phone_init s = Inl ValidationError)"
  by (auto simp: Phone_init_def isdigit_def Field_eq_same)

theorem Phone_init_iff_witness:
  "Phone_init ''0501234567'' = Inr (Phone ''0501234567'')
   \<and> Field_eq (PhoneField (Phone ''0501234567'')) (FieldObject (PhoneField (Phone ''0501234567'')))
       = Inr True
   \<and> Phone_init ''050123456'' = Inl ValidationError
   \<and> Phone_init ''050-123-45'' = Inl ValidationError"
  using Phone_init_iff [of "''0501234567''"] Phone_init_iff [of "''050123456''"]
    Phone_init_iff [of "''050-123-45''"]
  by (simp add: chr_isdigit_def)

section \<open>Comparing a field with an object that is not a field\<close>

text \<open>
  Claim C8. For every field \<open>f\<close> and every object \<open>x\<close> without an attribute \<open>value\<close>,
  \<open>f == x\<close> raises \<open>AttributeError\<close>; it does not return \<open>False\<close>, because
  \<open>other.value\<close> is read before \<open>isinstance\<close> is asked.
\<close>

theorem Field_eq_no_value:
  "getattr_value x = Inl AttributeError \<Longrightarrow> Field_eq f x = Inl AttributeError"
  by (simp add: Field_eq_def)

theorem Field_eq_no_value_witness:
  "Field_eq (PhoneField (Phone ''0501234567'')) (StrObject ''0501234567'') = Inl AttributeError
   \<and> Field_eq (NameField (Name ''John'')) NoneObject = Inl AttributeError"
proof -
  have s: "getattr_value (StrObject ''0501234567'') = Inl AttributeError"
    and n: "getattr_value NoneObject = Inl AttributeError"
    by simp_all
  from Field_eq_no_value [OF s] Field_eq_no_value [OF n] show ?thesis by simp
qed

section \<open>Phone operations of a record\<close>

lemmas record_defs = add_phone_def remove_phone_def edit_phone_def set_remove_def



text \<open>An operation that raises leaves the record as it was.\<close>

lemma add_phone_error: "fst (add_phone r a) = Inl e \<Longrightarrow> snd (add_phone r a) = r"
  by (auto simp: add_phone_def split: sum.splits)

lemma remove_phone_error: "fst (remove_phone r a) = Inl e \<Longrightarrow> snd (remove_phone r a) = r"
  by (auto simp: remove_phone_def split: sum.splits)

lemma edit_phone_error: "fst (edit_phone r a b) = Inl e \<Longrightarrow> snd (edit_phone r a b) = r"
  by (auto simp: edit_phone_def set_remove_def Let_def split: sum.splits if_splits)

text \<open>
  Claim C10. Whenever \<open>add_phone\<close>, \<open>remove_phone\<close> or \<open>edit_phone\<close> raises, the
  record's set of phones is what it was before the call. In \<open>edit_phone\<close> the new phone
  is validated before it is added, and the removal that follows the addition cannot fail,
  since the old phone has been found in the set.
\<close>

theorem phone_operations_atomic:
  "(fst (add_phone r a) = Inl e \<longrightarrow> phones (snd (add_phone r a)) = phones r)
   \<and> (fst (remove_phone r a) = Inl e \<longrightarrow> phones (snd (remove_phone r a)) = phones r)
   \<and> (fst (edit_phone r a b) = Inl e \<longrightarrow> phones (snd (edit_phone r a b)) = phones r)"
  using add_phone_error [of r a e] remove_phone_error [of r a e] edit_phone_error [of r a b e]
  by auto

theorem phone_operations_atomic_witness:
  "fst (add_phone \<lparr>name = Name ''John'', birthday = None, phones = {|Phone ''0501234567''|}\<rparr>
          ''050-123-45'') = Inl ValidationError
   \<and> phones (snd (add_phone
          \<lparr>name = Name ''John'', birthday = None, phones = {|Phone ''0501234567''|}\<rparr>
          ''050-123-45'')) = {|Phone ''0501234567''|}
   \<and> fst (remove_phone \<lparr>name = Name ''John'', birthday = None, phones = {|Phone ''0501234567''|}\<rparr>
          ''050-123-45'') = Inl ValidationError
   \<and> phones (snd (remove_phone
          \<lparr>name = Name ''John'', birthday = None, phones = {|Phone ''0501234567''|}\<rparr>
          ''050-123-45'')) = {|Phone ''0501234567''|}
   \<and> fst (edit_phone \<lparr>name = Name ''John'', birthday = None, phones = {|Phone ''0501234567''|}\<rparr>
          ''0501234567'' ''050-123-45'') = Inl ValidationError
   \<and> phones (snd (edit_phone
          \<lparr>name = Name ''John'', birthday = None, phones = {|Phone ''0501234567''|}\<rparr>
          ''0501234567'' ''050-123-45'')) = {|Phone ''0501234567''|}"
proof -
  have a: "fst (add_phone \<lparr>name = Name ''John'', birthday = None, phones = {|Phone ''0501234567''|}\<rparr>
          ''050-123-45'') = Inl ValidationError"
    by (simp add: record_defs phone_defs)
  have r: "fst (remove_phone \<lparr>name = Name ''John'', birthday = None, phones = {|Phone ''0501234567''|}\<rparr>
          ''050-123-45'') = Inl ValidationError"
    by (simp add: record_defs phone_defs)
  have e: "fst (edit_phone \<lparr>name = Name ''John'', birthday = None, phones = {|Phone ''0501234567''|}\<rparr>
          ''0501234567'' ''050-123-45'') = Inl ValidationError"
    by (simp add: record_defs phone_defs)
  from a r e
    phone_operations_atomic
      [of "\<lparr>name = Name ''John'', birthday = None, phones = {|Phone ''0501234567''|}\<rparr>"
          "''050-123-45''" ValidationError "''050-123-45''"]
    phone_operations_atomic
      [of "\<lparr>name = Name ''John'', birthday = None, phones = {|Phone ''0501234567''|}\<rparr>"
          "''0501234567''" ValidationError "''050-123-45''"]
  show ?thesis by simp
qed

text \<open>Editing a phone of the record to the number it already is.\<close>

lemma edit_phone_same_removes:
  assumes "Phone_init s = Inr p" "p |\<in>| phones r"
  shows "edit_phone r s s = (Inr (), r\<lparr>phones := phones r |-| {|p|}\<rparr>)"
  using assms by (simp add: edit_phone_def set_remove_def finsert_absorb)

text \<open>
  Claim C2 says that \<open>edit_phone(s, s)\<close> leaves the set of phones unchanged when \<open>s\<close>
  is in it. The source adds the new phone, which is already there, and then removes the
  old one, which is the same: the number is gone and the set is one smaller.
\<close>

theorem edit_phone_same_number:
  "Phone_init ''0501234567'' = Inr (Phone ''0501234567'')
   \<and> Phone ''0501234567'' |\<in>| phones \<lparr>name = Name ''John'', birthday = None,
          phones = {|Phone ''0501234567'', Phone ''0507654321''|}\<rparr>
   \<and> edit_phone \<lparr>name = Name ''John'', birthday = None,
          phones = {|Phone ''0501234567'', Phone ''0507654321''|}\<rparr> ''0501234567'' ''0501234567''
     = (Inr (), \<lparr>name = Name ''John'', birthday = None, phones = {|Phone ''0507654321''|}\<rparr>)"
  by (simp add: record_defs phone_defs)

text \<open>After the call the number is not in the set.\<close>

theorem edit_phone_same_number_witness:
  "Phone ''0501234567'' |\<notin>| phones (snd (edit_phone \<lparr>name = Name ''John'', birthday = None,
          phones = {|Phone ''0501234567'', Phone ''0507654321''|}\<rparr> ''0501234567'' ''0501234567''))"
  using edit_phone_same_number by simp

section \<open>Parsing and printing a birthday\<close>


lemmas parse_defs = Birthday_init_def strptime_def format_matches_def then_dot_def
  day_directive_def month_directive_def year_directive_def dec_char_def nonzero_char_def
  digit_value_def


text \<open>
  Claim C9. There are strings that are not in zero-padded form and are accepted:
  \<open>5.3.1990\<close> gives the same birthday as \<open>05.03.1990\<close>, 5 March 1990. The alternatives
  \<open>[1-9]\<close> of \<open>%d\<close> and \<open>%m\<close> take a single digit.
\<close>

theorem Birthday_init_single_digits:
  "Birthday_init ''5.3.1990'' = Inr (Birthday (Some (mk_date 1990 3 5)))
   \<and> Birthday_init ''05.03.1990'' = Inr (Birthday (Some (mk_date 1990 3 5)))"
  by (simp add: parse_defs calendar_defs)

text \<open>The two strings give the same birthday.\<close>

theorem Birthday_init_single_digits_witness:
  "Birthday_init ''5.3.1990'' = Birthday_init ''05.03.1990''"
  using Birthday_init_single_digits by simp













section \<open>Upcoming birthdays\<close>

text \<open>
  When every record with a birthday has a celebration date, the query returns exactly the
  records whose date lies in the half-open window, in the order of the directory: a
  date \<open>days_ahead\<close> days out is left out, the date of \<open>today\<close> is in.
\<close>

lemma upcoming_loop_scheduled:
  assumes "\<forall>r \<in> set rs. birthday r \<noteq> None \<longrightarrow> celebration r today \<noteq> None"
  shows "upcoming_loop rs days_ahead today acc = Inr (acc @ within_days rs days_ahead today)"
  using assms
proof (induction rs arbitrary: acc)
  case Nil
  then show ?case by (simp add: within_days_def map_filter_simps)
next
  case (Cons r rs)
  then have ih: "\<And>acc. upcoming_loop rs days_ahead today acc
      = Inr (acc @ within_days rs days_ahead today)"
    by simp
  show ?case
  proof (cases "birthday r")
    case None
    then show ?thesis
      by (simp add: ih within_days_def map_filter_simps celebration_def)
  next
    case (Some b)
    with Cons.prems obtain d where d: "next_congritulation_date b today = Inr (Some d)"
      by (auto simp: celebration_def split: sum.splits option.splits)
    with Some show ?thesis
      by (simp add: ih within_days_def map_filter_simps celebration_def)
  qed
qed

lemma get_upcoming_birthdays_scheduled:
  assumes "\<forall>r \<in> set (map snd book). birthday r \<noteq> None \<longrightarrow> celebration r today \<noteq> None"
  shows "get_upcoming_birthdays book days_ahead today
    = Inr (within_days (map snd book) days_ahead today)"
  using upcoming_loop_scheduled [OF assms] by (simp add: get_upcoming_birthdays_def)

lemma within_days_iff:
  "(n, d) \<in> set (within_days rs days_ahead today) \<longleftrightarrow>
   (\<exists>r \<in> set rs. name r = n \<and> celebration r today = Some d
      \<and> 0 \<le> days_between d today \<and> days_between d today < days_ahead)"
  by (auto simp: within_days_def map_filter_def image_iff split: option.splits if_splits)

lemma get_upcoming_birthdays_boundary:
  "get_upcoming_birthdays
       [(''Bob'', \<lparr>name = Name ''Bob'', birthday = Some (Birthday (Some (mk_date 1990 3 4))),
                  phones = {||}\<rparr>),
        (''Eve'', \<lparr>name = Name ''Eve'', birthday = Some (Birthday (Some (mk_date 1985 3 11))),
                  phones = {||}\<rparr>)]
       7 (mk_date 2024 3 4)
     = Inr [(Name ''Bob'', mk_date 2024 3 4)]
   \<and> days_between (mk_date 2024 3 11) (mk_date 2024 3 4) = 7"
  by (simp add: get_upcoming_birthdays_def schedule_defs calendar_defs numeral_2_eq_2)

text \<open>
  Claim C4 says this of every directory and every date. On 1 March 2024 a directory that
  holds a 29 February birthday makes the query raise \<open>ValueError\<close>, for
  \<open>next_congritulation_date\<close> raises on that birthday; Bob, whose celebration is three
  days out, is not reported.
\<close>

theorem get_upcoming_birthdays_raises:
  "next_congritulation_date (Birthday (Some (mk_date 1990 3 2))) (mk_date 2024 3 1)
     = Inr (Some (mk_date 2024 3 4))
   \<and> days_between (mk_date 2024 3 4) (mk_date 2024 3 1) = 3
   \<and> next_congritulation_date (Birthday (Some (mk_date 2000 2 29))) (mk_date 2024 3 1)
     = Inl ValueError
   \<and> get_upcoming_birthdays
       [(''Bob'', \<lparr>name = Name ''Bob'', birthday = Some (Birthday (Some (mk_date 1990 3 2))),
                  phones = {||}\<rparr>),
        (''Ann'', \<lparr>name = Name ''Ann'', birthday = Some (Birthday (Some (mk_date 2000 2 29))),
                  phones = {||}\<rparr>)]
       7 (mk_date 2024 3 1)
     = Inl ValueError"
  by (simp add: get_upcoming_birthdays_def schedule_defs calendar_defs numeral_2_eq_2)

text \<open>The list with Bob in it is not what the query gives.\<close>

theorem get_upcoming_birthdays_raises_witness:
  "get_upcoming_birthdays
       [(''Bob'', \<lparr>name = Name ''Bob'', birthday = Some (Birthday (Some (mk_date 1990 3 2))),
                  phones = {||}\<rparr>),
        (''Ann'', \<lparr>name = Name ''Ann'', birthday = Some (Birthday (Some (mk_date 2000 2 29))),
                  phones = {||}\<rparr>)]
       7 (mk_date 2024 3 1)
     \<noteq> Inr [(Name ''Bob'', mk_date 2024 3 4)]"
  using get_upcoming_birthdays_raises by simp

end
